theory Spec2Isabelle
  imports Complex_Main
begin

section \<open>The text chunker of pinecone.js\<close>

text \<open>
  \<^verbatim>\<open>text.slice(start, fin)\<close> of JavaScript: a negative index counts from the end of the
  string, and both indices are clamped to the range from 0 to the length. A text is a
  list of UTF-16 code units, kept polymorphic here; \<^verbatim>\<open>text.length\<close> is its length.
  The numbers \<^verbatim>\<open>chunkSize\<close>, \<^verbatim>\<open>overlap\<close> and \<^verbatim>\<open>i\<close> are integers.
\<close>

definition js_slice :: "'a list \<Rightarrow> int \<Rightarrow> int \<Rightarrow> 'a list" where
  "js_slice text start fin =
     (let len = int (length text);
          from = (if start < 0 then max (len + start) 0 else min start len);
          to = (if fin < 0 then max (len + fin) 0 else min fin len)
      in take (nat (to - from)) (drop (nat from) text))"

text \<open>
  The loop of \<^verbatim>\<open>chunkText\<close>:
  \<^verbatim>\<open>for (let i = 0; i < text.length; i += chunkSize - overlap)
    chunks.push(text.slice(i, i + chunkSize));\<close>
  Nothing in the source bounds the number of iterations, so the loop is a partial
  function: the value \<open>None\<close> stands for a loop that never exits.
\<close>

partial_function (option) chunkText_loop ::
  "'a list \<Rightarrow> int \<Rightarrow> int \<Rightarrow> int \<Rightarrow> 'a list list \<Rightarrow> 'a list list option" where
  "chunkText_loop text chunkSize overlap i chunks =
     (if i < int (length text)
      then chunkText_loop text chunkSize overlap (i + (chunkSize - overlap))
             (chunks @ [js_slice text i (i + chunkSize)])
      else Some chunks)"

declare chunkText_loop.simps [code]

definition chunkText :: "'a list \<Rightarrow> int \<Rightarrow> int \<Rightarrow> 'a list list option" where
  "chunkText text chunkSize overlap = chunkText_loop text chunkSize overlap 0 []"

text \<open>The default arguments \<^verbatim>\<open>chunkSize = 500, overlap = 50\<close>.\<close>

definition chunkText_default :: "'a list \<Rightarrow> 'a list list option" where
  "chunkText_default text = chunkText text 500 50"

text \<open>
  Rejoining as the specification words it: the first chunk, followed by every later
  chunk without its first \<open>overlap\<close> characters. This function is not in the source.
\<close>

fun rejoin :: "int \<Rightarrow> 'a list list \<Rightarrow> 'a list" where
  "rejoin overlap [] = []"
| "rejoin overlap (c # cs) = c @ concat (map (drop (nat overlap)) cs)"

text \<open>
  The number of iterations of a loop that starts \<open>d\<close> below its bound and advances by
  \<open>step\<close>: the ceiling of \<open>d / step\<close>, and 0 when \<open>d\<close> is not positive.
\<close>

definition iterations :: "int \<Rightarrow> int \<Rightarrow> nat" where
  "iterations d step = nat (- ((- d) div step))"

section \<open>The embedding client of pinecone.js\<close>

text \<open>
  The values a response body can hold once \<^verbatim>\<open>axios\<close> has parsed it, and \<^verbatim>\<open>undefined\<close>,
  which a read of a missing property gives. An object is the list of its fields, each key
  once.
\<close>

datatype js_value =
    JUndefined
  | JNull
  | JBool bool
  | JNum real
  | JStr string
  | JArr "js_value list"
  | JObj "(string \<times> js_value) list"

text \<open>
  What a library call throws, or rejects its promise with: an error object with a
  message and a stack.
\<close>

datatype js_error = JsError (err_message: string) (err_stack: "string option")

text \<open>
  What \<^verbatim>\<open>getEmbedding\<close> can throw: the \<^verbatim>\<open>TypeError\<close> of the language for a property read
  on \<^verbatim>\<open>undefined\<close> or \<^verbatim>\<open>null\<close>, or the rejection of the remote call.
\<close>

datatype thrown = TypeError | Rejected js_error

text \<open>The truthiness that \<^verbatim>\<open>||\<close> tests.\<close>

fun truthy :: "js_value \<Rightarrow> bool" where
  "truthy JUndefined = False"
| "truthy JNull = False"
| "truthy (JBool b) = b"
| "truthy (JNum x) = (x \<noteq> 0)"
| "truthy (JStr s) = (s \<noteq> [])"
| "truthy (JArr xs) = True"
| "truthy (JObj fs) = True"

fun nullish :: "js_value \<Rightarrow> bool" where
  "nullish JUndefined = True"
| "nullish JNull = True"
| "nullish v = False"

text \<open>
  \<^verbatim>\<open>v.embedding\<close> on a value that is neither \<^verbatim>\<open>undefined\<close> nor \<^verbatim>\<open>null\<close>: the field of an
  object, and \<^verbatim>\<open>undefined\<close> on an array or a primitive, whose prototypes have no such
  property.
\<close>

fun js_member :: "js_value \<Rightarrow> string \<Rightarrow> js_value" where
  "js_member (JObj fs) name = (case map_of fs name of None \<Rightarrow> JUndefined | Some v \<Rightarrow> v)"
| "js_member v name = JUndefined"

text \<open>\<^verbatim>\<open>v[0]\<close> on a value that is neither \<^verbatim>\<open>undefined\<close> nor \<^verbatim>\<open>null\<close>.\<close>

fun js_first :: "js_value \<Rightarrow> js_value" where
  "js_first (JArr []) = JUndefined"
| "js_first (JArr (x # xs)) = x"
| "js_first (JObj fs) = (case map_of fs ''0'' of None \<Rightarrow> JUndefined | Some v \<Rightarrow> v)"
| "js_first (JStr []) = JUndefined"
| "js_first (JStr (c # cs)) = JStr [c]"
| "js_first v = JUndefined"

text \<open>
  \<^verbatim>\<open>getEmbedding(text)\<close>. The parameter \<open>post\<close> is the remote service as \<^verbatim>\<open>axios.post\<close>
  reaches it with \<^verbatim>\<open>{ inputs: text }\<close>: either the call rejects, or it resolves to a
  response whose \<^verbatim>\<open>data\<close> is a value. The function returns
  \<^verbatim>\<open>response.data.embedding || response.data[0]\<close>.
\<close>

definition getEmbedding :: "(string \<Rightarrow> js_error + js_value) \<Rightarrow> string \<Rightarrow> thrown + js_value" where
  "getEmbedding post text =
     (case post text of
        Inl e \<Rightarrow> Inl (Rejected e)
      | Inr data \<Rightarrow>
          if nullish data then Inl TypeError
          else if truthy (js_member data ''embedding'') then Inr (js_member data ''embedding'')
          else Inr (js_first data))"

section \<open>The HTTP handlers\<close>

subsection \<open>Data\<close>

text \<open>
  A document of the loader, the splitter and the vector store: its text and its
  metadata, of which only the string-valued fields are kept.
\<close>

record document =
  pageContent :: string
  metadata :: "(string \<times> string) list"

text \<open>The file that the upload middleware stored on disk (\<^verbatim>\<open>req.file\<close>).\<close>

record upload_file =
  path :: string
  originalname :: string

record upload_request =
  req_file :: "upload_file option"

text \<open>
  A query request: \<^verbatim>\<open>req.body\<close> as the JSON middleware left it, which is the parsed value,
  or \<^verbatim>\<open>undefined\<close> where the middleware parsed nothing and leaves the body unset.
\<close>

record query_request =
  body :: js_value

datatype chat_message = ChatMessage (content: "string option")

datatype choice = Choice (choice_message: "chat_message option")

datatype chat_completion = ChatCompletionObject (choices: "choice list")

record source =
  source_content :: string
  source_metadata :: "(string \<times> string) list"

text \<open>A record of the vector index, as \<^verbatim>\<open>processPdfAndStoreInPinecone\<close> builds it.\<close>

record vector_record =
  vec_id :: string
  vec_values :: js_value
  vec_text :: string

datatype response_body =
    StatusBody string
  | ErrorBody string
  | UploadOk (ok_message: string) (ok_namespace: string) (chunkCount: nat) (originalPageCount: nat)
  | UploadFailed (fail_error: string) (fail_details: string) (fail_stack: "string option")
  | QueryOk (answer: "string option") (sources: "source list")
  | QueryFailed (query_error: string) (query_details: "string option")

datatype response = Response (status: nat) (response_body: response_body)

text \<open>
  The calls that leave the process or touch the file system, in the order they are made.
  Logging is not recorded.
\<close>

datatype event =
    PdfLoad string
  | SplitDocuments
  | FromExistingIndex string string
  | AddDocuments string "document list"
  | Unlink string
  | SimilaritySearch string js_value nat
  | ChatCompletion string js_value
  | ReadFile string
  | PdfParse
  | EmbeddingPost string
  | IndexUpsert "vector_record list"

text \<open>
  The state the handlers share: the calls made so far, the files on disk, the namespace
  stored in the session of the client, and the number of calls of \<^verbatim>\<open>uuidv4()\<close> so far.
\<close>

record state =
  trace :: "event list"
  files :: "string set"
  session_namespace :: "string option"
  uuid_draws :: nat

text \<open>
  What the world outside answers during one invocation: the environment variables, and
  for every library call either its result or the error it throws. The answer of
  \<^verbatim>\<open>fs.unlinkSync\<close> may depend on the calls made before it. The field
  \<open>nullish_TypeError\<close> is the error object, with the message and the stack the engine gives
  it, that is thrown when a property of \<^verbatim>\<open>undefined\<close> or \<^verbatim>\<open>null\<close> is read.
\<close>

record world =
  NODE_ENV :: "string option"
  PINECONE_INDEX_NAME :: "string option"
  loader_load :: "string \<Rightarrow> js_error + document list"
  splitDocuments :: "document list \<Rightarrow> js_error + document list"
  fromExistingIndex :: "string \<Rightarrow> string \<Rightarrow> js_error option"
  addDocuments :: "string \<Rightarrow> document list \<Rightarrow> js_error option"
  unlinkSync_outcome :: "event list \<Rightarrow> string \<Rightarrow> js_error option"
  similaritySearch :: "string \<Rightarrow> js_value \<Rightarrow> nat \<Rightarrow> js_error + document list"
  completions_create :: "string \<Rightarrow> js_value \<Rightarrow> js_error + chat_completion"
  nullish_TypeError :: js_error

subsection \<open>Strings\<close>

text \<open>The decimal digits of a number, as a template literal prints it.\<close>

fun show_nat :: "nat \<Rightarrow> string" where
  "show_nat n =
     (if n < 10 then [char_of (48 + n)]
      else show_nat (n div 10) @ [char_of (48 + n mod 10)])"

text \<open>\<^verbatim>\<open>Array.prototype.join\<close> on strings.\<close>

fun join :: "string \<Rightarrow> string list \<Rightarrow> string" where
  "join sep [] = []"
| "join sep [x] = x"
| "join sep (x # y # ys) = x @ sep @ join sep (y # ys)"

text \<open>
  \<^verbatim>\<open>JSON.stringify\<close> on a string: the text between double quotes, where the double quote,
  the backslash and the control characters below 0x20 are escaped.
\<close>

definition hex_digit :: "nat \<Rightarrow> char" where
  "hex_digit n = (if n < 10 then char_of (48 + n) else char_of (87 + n))"

definition json_escape :: "char \<Rightarrow> string" where
  "json_escape c =
     (if c = CHR 0x22 then [CHR 0x5C, CHR 0x22]
      else if c = CHR 0x5C then [CHR 0x5C, CHR 0x5C]
      else if c = CHR 0x08 then [CHR 0x5C, CHR ''b'']
      else if c = CHR 0x0C then [CHR 0x5C, CHR ''f'']
      else if c = CHR 0x0A then [CHR 0x5C, CHR ''n'']
      else if c = CHR 0x0D then [CHR 0x5C, CHR ''r'']
      else if c = CHR 0x09 then [CHR 0x5C, CHR ''t'']
      else if (of_char c :: nat) < 32
        then [CHR 0x5C, CHR ''u'', CHR ''0'', CHR ''0'',
              hex_digit (of_char c div 16), hex_digit (of_char c mod 16)]
      else [c])"

definition JSON_stringify :: "string \<Rightarrow> string" where
  "JSON_stringify s = CHR 0x22 # concat (map json_escape s) @ [CHR 0x22]"

subsection \<open>Shared steps\<close>

definition emit :: "event \<Rightarrow> state \<Rightarrow> state" where
  "emit e s = s\<lparr>trace := trace s @ [e]\<rparr>"

text \<open>\<^verbatim>\<open>process.env.PINECONE_INDEX_NAME || "pdf-chat"\<close>.\<close>

definition index_name :: "world \<Rightarrow> string" where
  "index_name w =
     (case PINECONE_INDEX_NAME w of
        None \<Rightarrow> ''pdf-chat''
      | Some n \<Rightarrow> if n = [] then ''pdf-chat'' else n)"

text \<open>
  \<^verbatim>\<open>fs.unlinkSync(p)\<close>: the call is recorded; it throws, or the file is gone afterwards.
\<close>

definition unlinkSync :: "world \<Rightarrow> string \<Rightarrow> state \<Rightarrow> js_error option \<times> state" where
  "unlinkSync w p s =
     (case unlinkSync_outcome w (trace s) p of
        Some e \<Rightarrow> (Some e, emit (Unlink p) s)
      | None \<Rightarrow> (None, (emit (Unlink p) s)\<lparr>files := files s - {p}\<rparr>))"

subsection \<open>POST /upload/pdf\<close>

text \<open>
  The batch loop of the upload handler:
  \<^verbatim>\<open>for (let i = 0; i < docs.length; i += batchSize) {
    const batch = docs.slice(i, i + batchSize);
    await vectorStore.addDocuments(batch); }\<close>
  with \<^verbatim>\<open>batchSize = 100\<close>. The first component of the result is the error of the call
  that threw, if one did.
\<close>

function add_batches ::
  "world \<Rightarrow> string \<Rightarrow> document list \<Rightarrow> nat \<Rightarrow> state \<Rightarrow> js_error option \<times> state" where
  "add_batches w namespace docs i s =
     (if i < length docs then
        (let batch = js_slice docs (int i) (int i + 100);
             s1 = emit (AddDocuments namespace batch) s
         in case addDocuments w namespace batch of
              Some e \<Rightarrow> (Some e, s1)
            | None \<Rightarrow> add_batches w namespace docs (i + 100) s1)
      else (None, s))"
  by pat_completeness auto
termination
  by (relation "measure (\<lambda>(w, namespace, docs, i, s). length docs - i)") auto

declare add_batches.simps [simp del]

text \<open>
  The body of the \<^verbatim>\<open>try\<close> block. \<open>Inl e\<close> is the error \<open>e\<close> thrown inside the block, \<open>Inr r\<close>
  the response sent by a \<^verbatim>\<open>return\<close>. The argument \<open>uuidv4\<close> gives the value of the n-th
  call of \<^verbatim>\<open>uuidv4()\<close> in the process.
\<close>

definition upload_try ::
  "(nat \<Rightarrow> string) \<Rightarrow> world \<Rightarrow> upload_request \<Rightarrow> state \<Rightarrow> (js_error + response) \<times> state" where
  "upload_try uuidv4 w req s =
     (case req_file req of
        None \<Rightarrow> (Inr (Response 400 (ErrorBody ''No file uploaded'')), s)
      | Some f \<Rightarrow>
          let filePath = path f;
              s1 = emit (PdfLoad filePath) s
          in case loader_load w filePath of
               Inl e \<Rightarrow> (Inl e, s1)
             | Inr rawDocs \<Rightarrow>
                 let s2 = emit SplitDocuments s1
                 in case splitDocuments w rawDocs of
                      Inl e \<Rightarrow> (Inl e, s2)
                    | Inr docs \<Rightarrow>
                        let pineconeIndex = index_name w;
                            namespace = uuidv4 (uuid_draws s2);
                            s3 = s2\<lparr>uuid_draws := Suc (uuid_draws s2),
                                    session_namespace := Some namespace\<rparr>;
                            s4 = emit (FromExistingIndex pineconeIndex namespace) s3
                        in case fromExistingIndex w pineconeIndex namespace of
                             Some e \<Rightarrow> (Inl e, s4)
                           | None \<Rightarrow>
                               (case add_batches w namespace docs 0 s4 of
                                  (Some e, s5) \<Rightarrow> (Inl e, s5)
                                | (None, s5) \<Rightarrow>
                                    (case unlinkSync w filePath s5 of
                                       (Some e, s6) \<Rightarrow> (Inl e, s6)
                                     | (None, s6) \<Rightarrow>
                                         (Inr (Response 200
                                            (UploadOk ''PDF processed and stored successfully''
                                               namespace (length docs) (length rawDocs))),
                                          s6))))"

text \<open>
  The handler: the \<^verbatim>\<open>try\<close> block, and the \<^verbatim>\<open>catch\<close> block, which deletes the file when
  \<^verbatim>\<open>req.file?.path\<close> is truthy and answers 500. \<open>Inl e\<close> is an error thrown out of the
  \<^verbatim>\<open>catch\<close> block: the handler's promise rejects and no response is sent by it.
\<close>

definition upload_catch ::
  "world \<Rightarrow> upload_request \<Rightarrow> js_error \<Rightarrow> state \<Rightarrow> (js_error + response) \<times> state" where
  "upload_catch w req error s =
     (let reply = Response 500
            (UploadFailed ''Failed to process PDF'' (err_message error)
               (if NODE_ENV w = Some ''development'' then err_stack error else None))
      in case req_file req of
           None \<Rightarrow> (Inr reply, s)
         | Some f \<Rightarrow>
             if path f = [] then (Inr reply, s)
             else (case unlinkSync w (path f) s of
                     (Some e, s1) \<Rightarrow> (Inl e, s1)
                   | (None, s1) \<Rightarrow> (Inr reply, s1)))"

definition upload_handler ::
  "(nat \<Rightarrow> string) \<Rightarrow> world \<Rightarrow> upload_request \<Rightarrow> state \<Rightarrow> (js_error + response) \<times> state" where
  "upload_handler uuidv4 w req s =
     (case upload_try uuidv4 w req s of
        (Inr r, s1) \<Rightarrow> (Inr r, s1)
      | (Inl error, s1) \<Rightarrow> upload_catch w req error s1)"

subsection \<open>POST /query\<close>

text \<open>\<^verbatim>\<open>doc.metadata.source || 'PDF'\<close>.\<close>

definition source_or_PDF :: "document \<Rightarrow> string" where
  "source_or_PDF doc =
     (case map_of (metadata doc) ''source'' of
        None \<Rightarrow> ''PDF''
      | Some src \<Rightarrow> if src = [] then ''PDF'' else src)"

definition context_entry :: "document \<Rightarrow> nat \<Rightarrow> string" where
  "context_entry doc i =
     ''[Context '' @ show_nat (i + 1) @ '']: '' @ pageContent doc @
     ''\<newline>Source: '' @ source_or_PDF doc"

definition build_context :: "document list \<Rightarrow> string" where
  "build_context results =
     join ''\<newline>\<newline>'' (map (\<lambda>(i, doc). context_entry doc i) (enumerate 0 results))"

definition SYSTEM_PROMPT :: "string \<Rightarrow> string" where
  "SYSTEM_PROMPT context =
     ''\<newline>    You are an AI assistant that answers questions based on the provided context from PDF documents.'' @
     ''\<newline>    - Always stay truthful to the context'' @
     ''\<newline>    - If you don't know, say you don't know'' @
     ''\<newline>    - Keep answers concise and accurate'' @
     ''\<newline>    - give all the details (can give in paragraph) '' @
     ''\<newline>    '' @
     ''\<newline>    Context:'' @
     ''\<newline>     '' @ JSON_stringify context @
     ''\<newline>    ''"

text \<open>\<^verbatim>\<open>chatCompletion.choices[0]?.message?.content\<close>.\<close>

definition first_content :: "chat_completion \<Rightarrow> string option" where
  "first_content c =
     (case choices c of
        [] \<Rightarrow> None
      | ch # rest \<Rightarrow> (case choice_message ch of None \<Rightarrow> None | Some m \<Rightarrow> content m))"

definition to_source :: "document \<Rightarrow> source" where
  "to_source doc = \<lparr>source_content = pageContent doc, source_metadata = metadata doc\<rparr>"

text \<open>
  The body of the \<^verbatim>\<open>try\<close> block. The namespace is the string constant of the source; the
  line that reads \<^verbatim>\<open>req.session.namespace\<close> is commented out there. The destructuring
  \<^verbatim>\<open>const { question } = req.body\<close> throws when the body is \<^verbatim>\<open>undefined\<close> or \<^verbatim>\<open>null\<close>, and
  reads the property \<^verbatim>\<open>question\<close> otherwise.
\<close>

definition query_try :: "world \<Rightarrow> query_request \<Rightarrow> state \<Rightarrow> (js_error + response) \<times> state" where
  "query_try w req s =
     (let namespace = ''6763088c-17a1-433d-9f7f-066974723312''
      in if nullish (body req) then (Inl (nullish_TypeError w), s)
         else
         let question = js_member (body req) ''question''
         in
         if \<not> truthy question
         then (Inr (Response 400 (ErrorBody ''Question is required'')), s)
         else
           let pineconeIndex = index_name w;
               s1 = emit (FromExistingIndex pineconeIndex namespace) s
           in case fromExistingIndex w pineconeIndex namespace of
                Some e \<Rightarrow> (Inl e, s1)
              | None \<Rightarrow>
                  let s2 = emit (SimilaritySearch namespace question 5) s1
                  in case similaritySearch w namespace question 5 of
                       Inl e \<Rightarrow> (Inl e, s2)
                     | Inr results \<Rightarrow>
                         let context = build_context results;
                             s3 = emit (ChatCompletion (SYSTEM_PROMPT context) question) s2
                         in case completions_create w (SYSTEM_PROMPT context) question of
                              Inl e \<Rightarrow> (Inl e, s3)
                            | Inr chatCompletion \<Rightarrow>
                                (Inr (Response 200
                                   (QueryOk (first_content chatCompletion)
                                      (map to_source results))),
                                 s3))"

definition query_handler :: "world \<Rightarrow> query_request \<Rightarrow> state \<Rightarrow> (js_error + response) \<times> state" where
  "query_handler w req s =
     (case query_try w req s of
        (Inr r, s1) \<Rightarrow> (Inr r, s1)
      | (Inl error, s1) \<Rightarrow>
          (Inr (Response 500
             (QueryFailed ''Failed to process query''
                (if NODE_ENV w = Some ''development'' then Some (err_message error) else None))),
           s1))"

subsection \<open>The routes\<close>

datatype request = GetRoot | PostUploadPdf upload_request | PostQuery query_request

fun handle ::
  "(nat \<Rightarrow> string) \<Rightarrow> world \<Rightarrow> request \<Rightarrow> state \<Rightarrow> (js_error + response) \<times> state" where
  "handle uuidv4 w GetRoot s = (Inr (Response 200 (StatusBody ''All Good!'')), s)"
| "handle uuidv4 w (PostUploadPdf req) s = upload_handler uuidv4 w req s"
| "handle uuidv4 w (PostQuery req) s = query_handler w req s"

text \<open>
  Requests served one after the other, each with the answers of the world during its
  invocation.
\<close>

fun serve ::
  "(nat \<Rightarrow> string) \<Rightarrow> (world \<times> request) list \<Rightarrow> state \<Rightarrow> (js_error + response) list \<times> state" where
  "serve uuidv4 [] s = ([], s)"
| "serve uuidv4 ((w, r) # rest) s =
     (case handle uuidv4 w r s of
        (res, s1) \<Rightarrow> (case serve uuidv4 rest s1 of (rs, s2) \<Rightarrow> (res # rs, s2)))"

section \<open>The ingestion function of pinecone.js\<close>

text \<open>
  What the world outside answers to \<^verbatim>\<open>processPdfAndStoreInPinecone\<close>: the file system, the
  PDF parser (whose result is reduced to its \<^verbatim>\<open>text\<close>), the embedding service, the clock
  read by \<^verbatim>\<open>Date.now()\<close> in the i-th iteration, and the vector index.
\<close>

record pipeline_world =
  readFileSync :: "string \<Rightarrow> js_error + string"
  pdfParse :: "string \<Rightarrow> js_error + string"
  axios_post :: "string \<Rightarrow> js_error + js_value"
  Date_now :: "nat \<Rightarrow> nat"
  index_upsert :: "vector_record list \<Rightarrow> js_error option"

text \<open>
  The loop that embeds the chunks:
  \<^verbatim>\<open>for (let i = 0; i < chunks.length; i++) {
    const embedding = await getEmbedding(chunks[i]);
    vectors.push({ id: `chunk-${Date.now()}-${i}`, values: embedding,
                   metadata: { text: chunks[i] } }); }\<close>
\<close>

function embed_loop ::
  "pipeline_world \<Rightarrow> string list \<Rightarrow> nat \<Rightarrow> vector_record list \<Rightarrow> event list \<Rightarrow>
   (thrown + vector_record list) \<times> event list" where
  "embed_loop w chunks i vectors tr =
     (if i < length chunks then
        (case getEmbedding (axios_post w) (chunks ! i) of
           Inl e \<Rightarrow> (Inl e, tr @ [EmbeddingPost (chunks ! i)])
         | Inr embedding \<Rightarrow>
             embed_loop w chunks (i + 1)
               (vectors @ [\<lparr>vec_id = ''chunk-'' @ show_nat (Date_now w i) @ ''-'' @ show_nat i,
                             vec_values = embedding,
                             vec_text = chunks ! i\<rparr>])
               (tr @ [EmbeddingPost (chunks ! i)]))
      else (Inr vectors, tr))"
  by pat_completeness auto
termination
  by (relation "measure (\<lambda>(w, chunks, i, vectors, tr). length chunks - i)") auto

declare embed_loop.simps [simp del]

text \<open>
  \<^verbatim>\<open>processPdfAndStoreInPinecone(filePath)\<close>. Its \<^verbatim>\<open>catch\<close> block logs the error and throws
  it again. The result is \<open>None\<close> when the chunker does not return; otherwise it is the
  outcome (\<open>Inl\<close> the error thrown) with the calls made.
\<close>

definition processPdfAndStoreInPinecone ::
  "pipeline_world \<Rightarrow> string \<Rightarrow> ((thrown + unit) \<times> event list) option" where
  "processPdfAndStoreInPinecone w filePath =
     (case readFileSync w filePath of
        Inl e \<Rightarrow> Some (Inl (Rejected e), [ReadFile filePath])
      | Inr buffer \<Rightarrow>
          (case pdfParse w buffer of
             Inl e \<Rightarrow> Some (Inl (Rejected e), [ReadFile filePath, PdfParse])
           | Inr text \<Rightarrow>
               (case chunkText_default text of
                  None \<Rightarrow> None
                | Some chunks \<Rightarrow>
                    (case embed_loop w chunks 0 [] [ReadFile filePath, PdfParse] of
                       (Inl e, tr) \<Rightarrow> Some (Inl e, tr)
                     | (Inr vectors, tr) \<Rightarrow>
                         (case index_upsert w vectors of
                            Some e \<Rightarrow> Some (Inl (Rejected e), tr @ [IndexUpsert vectors])
                          | None \<Rightarrow> Some (Inr (), tr @ [IndexUpsert vectors]))))))"

section \<open>Notions used to state the properties\<close>

text \<open>The calls made between two states of the server.\<close>

definition new_events :: "state \<Rightarrow> state \<Rightarrow> event list" where
  "new_events s s' = drop (length (trace s)) (trace s')"

text \<open>The namespace a call to the vector store is made under.\<close>

fun event_namespace :: "event \<Rightarrow> string list" where
  "event_namespace (FromExistingIndex idx ns) = [ns]"
| "event_namespace (AddDocuments ns batch) = [ns]"
| "event_namespace (SimilaritySearch ns q k) = [ns]"
| "event_namespace e = []"

text \<open>The namespace that a response of the upload handler reports.\<close>

fun reported_namespace :: "js_error + response \<Rightarrow> string list" where
  "reported_namespace (Inr (Response st (UploadOk m ns c p))) = [ns]"
| "reported_namespace r = []"

text \<open>
  The namespaces of one invocation that went from state \<open>s\<close> to state \<open>s'\<close> with result
  \<open>res\<close>: those of its calls to the vector store, and the one it reports.
\<close>

definition invocation_namespaces :: "js_error + response \<Rightarrow> state \<Rightarrow> state \<Rightarrow> string set" where
  "invocation_namespaces res s s' =
     set (concat (map event_namespace (new_events s s'))) \<union> set (reported_namespace res)"

text \<open>Worlds, requests and states for the examples.\<close>

definition page :: "string \<Rightarrow> document" where
  "page t = \<lparr>pageContent = t, metadata = [(''source'', ''upload/1-a.pdf'')]\<rparr>"

definition quiet_world :: world where
  "quiet_world =
     \<lparr>NODE_ENV = None,
      PINECONE_INDEX_NAME = None,
      loader_load = (\<lambda>p. Inr [page ''first page'', page ''second page'']),
      splitDocuments = (\<lambda>ds. Inr ds),
      fromExistingIndex = (\<lambda>idx ns. None),
      addDocuments = (\<lambda>ns batch. None),
      unlinkSync_outcome = (\<lambda>tr p. None),
      similaritySearch = (\<lambda>ns q k. Inr []),
      completions_create =
        (\<lambda>p q. Inr (ChatCompletionObject [Choice (Some (ChatMessage (Some ''I do not know'')))])),
      nullish_TypeError =
        JsError ''Cannot destructure property 'question' of 'req.body' as it is undefined.'' None\<rparr>"

text \<open>A world where the PDF cannot be parsed and the uploaded file cannot be deleted.\<close>

definition locked_world :: world where
  "locked_world =
     quiet_world
       \<lparr>loader_load := (\<lambda>p. Inl (JsError ''bad pdf'' None)),
        unlinkSync_outcome := (\<lambda>tr p. Some (JsError ''EPERM'' None))\<rparr>"

text \<open>A world where the first deletion of a file fails and the next one succeeds.\<close>

definition busy_world :: world where
  "busy_world =
     quiet_world
       \<lparr>unlinkSync_outcome :=
          (\<lambda>tr p. if Unlink p \<in> set tr then None else Some (JsError ''EBUSY'' None))\<rparr>"

text \<open>An embedding service that answers every text with the payload \<open>v\<close>.\<close>

definition answers :: "js_value \<Rightarrow> string \<Rightarrow> js_error + js_value" where
  "answers v t = Inr v"

definition a_pdf :: upload_request where
  "a_pdf = \<lparr>req_file = Some \<lparr>path = ''upload/1-a.pdf'', originalname = ''a.pdf''\<rparr>\<rparr>"

definition b_pdf :: upload_request where
  "b_pdf = \<lparr>req_file = Some \<lparr>path = ''upload/2-b.pdf'', originalname = ''b.pdf''\<rparr>\<rparr>"

definition ask :: "string \<Rightarrow> query_request" where
  "ask q = \<lparr>body = JObj [(''question'', JStr q)]\<rparr>"

definition start_state :: state where
  "start_state =
     \<lparr>trace = [], files = {''upload/1-a.pdf'', ''upload/2-b.pdf''},
      session_namespace = None, uuid_draws = 0\<rparr>"

definition counting_uuid :: "nat \<Rightarrow> string" where
  "counting_uuid n = ''ns-'' @ replicate n (CHR ''x'')"

section \<open>Properties of the chunker\<close>

subsection \<open>A closed form of the loop\<close>

lemma iterations_0: "0 < step \<Longrightarrow> d \<le> 0 \<Longrightarrow> iterations d step = 0"
  unfolding iterations_def
  by (simp add: pos_imp_zdiv_nonneg_iff)

lemma iterations_Suc:
  assumes "0 < step" "0 < d"
  shows "iterations d step = Suc (iterations (d - step) step)"
proof -
  have e: "(- (d - step)) div step = (- d) div step + 1"
  proof -
    have "(- (d - step)) div step = (- d + step) div step" by (simp add: algebra_simps)
    also have "\<dots> = (- d) div step + 1"
    proof -
      from assms have "step \<noteq> 0" by simp
      then show ?thesis by (rule div_add_self2)
    qed
    finally show ?thesis .
  qed
  have "(- d) div step < 0"
    using assms by (simp add: div_neg_pos_less0)
  then show ?thesis
    unfolding iterations_def e by simp
qed

lemma chunkText_loop_closed:
  assumes "0 < chunkSize - overlap"
  shows "iterations (int (length text) - i) (chunkSize - overlap) = n \<Longrightarrow>
         chunkText_loop text chunkSize overlap i chunks =
         Some (chunks @ map (\<lambda>k. js_slice text (i + int k * (chunkSize - overlap))
                                   (i + int k * (chunkSize - overlap) + chunkSize)) [0..<n])"
proof (induction n arbitrary: i chunks)
  case 0
  have "\<not> i < int (length text)"
  proof
    assume "i < int (length text)"
    then have "0 < int (length text) - i" by simp
    from iterations_Suc [OF assms this] 0 show False by simp
  qed
  then show ?case
    by (subst chunkText_loop.simps) simp
next
  case (Suc n)
  have lt: "i < int (length text)"
  proof (rule ccontr)
    assume "\<not> i < int (length text)"
    then have "int (length text) - i \<le> 0" by simp
    from iterations_0 [OF assms this] Suc.prems show False by simp
  qed
  then have "0 < int (length text) - i" by simp
  from iterations_Suc [OF assms this] Suc.prems
  have "iterations (int (length text) - (i + (chunkSize - overlap))) (chunkSize - overlap) = n"
    by (simp add: algebra_simps)
  from Suc.IH [OF this]
  have step: "chunkText_loop text chunkSize overlap (i + (chunkSize - overlap))
                (chunks @ [js_slice text i (i + chunkSize)]) =
              Some ((chunks @ [js_slice text i (i + chunkSize)]) @
                map (\<lambda>k. js_slice text (i + (chunkSize - overlap) + int k * (chunkSize - overlap))
                      (i + (chunkSize - overlap) + int k * (chunkSize - overlap) + chunkSize)) [0..<n])" .
  have m: "map (\<lambda>k. js_slice text (i + int k * (chunkSize - overlap))
                  (i + int k * (chunkSize - overlap) + chunkSize)) [0..<Suc n] =
           js_slice text i (i + chunkSize) #
           map (\<lambda>k. js_slice text (i + (chunkSize - overlap) + int k * (chunkSize - overlap))
                      (i + (chunkSize - overlap) + int k * (chunkSize - overlap) + chunkSize)) [0..<n]"
    by (simp add: upt_conv_Cons map_Suc_upt [symmetric] algebra_simps del: upt_Suc)
  show ?case
    by (subst chunkText_loop.simps) (simp only: lt if_True step m append_assoc append_Cons append_Nil)
qed

lemma js_slice_window:
  assumes "0 \<le> i" "0 \<le> i + n"
  shows "js_slice text i (i + n) = take (nat n) (drop (nat i) text)"
proof (cases "i \<le> int (length text)")
  case True
  with assms show ?thesis
    by (auto simp: js_slice_def Let_def min_def)
next
  case False
  with assms show ?thesis
    by (auto simp: js_slice_def Let_def min_def)
qed

lemma concat_windows:
  "concat (map (\<lambda>k. take s (drop (a + k * s) xs)) [0..<m]) = take (m * s) (drop a xs)"
proof (induction m)
  case 0
  show ?case by simp
next
  case (Suc m)
  have "take (m * s) (drop a xs) @ take s (drop (a + m * s) xs) = take (m * s + s) (drop a xs)"
    using take_add [of "m * s" s "drop a xs"] by (simp add: add.commute)
  with Suc show ?case by (simp add: add.commute)
qed

lemma chunkText_loop_diverges:
  assumes "chunkText_loop text chunkSize overlap i chunks = Some r"
  shows "\<not> (chunkSize \<le> overlap \<and> i < int (length text))"
  using assms
proof (induction rule: chunkText_loop.raw_induct [rotated 1, consumes 1])
  case (1 f t chunkSize overlap i chunks r)
  show ?case
  proof
    assume a: "chunkSize \<le> overlap \<and> i < int (length t)"
    with 1(2) have "f t chunkSize overlap (i + (chunkSize - overlap))
                      (chunks @ [js_slice t i (i + chunkSize)]) = Some r"
      by simp
    from 1(1) [OF this] a show False by simp
  qed
qed

lemma chunkText_closed:
  assumes "overlap < chunkSize"
  shows "chunkText text chunkSize overlap =
         Some (map (\<lambda>k. js_slice text (int k * (chunkSize - overlap))
                         (int k * (chunkSize - overlap) + chunkSize))
                 [0..<iterations (int (length text)) (chunkSize - overlap)])"
proof -
  from assms have "0 < chunkSize - overlap" by simp
  from chunkText_loop_closed [OF this, of "text" 0 _ "[]"] show ?thesis
    by (simp add: chunkText_def)
qed

lemma iterations_cover:
  assumes "0 < step"
  shows "d \<le> int (iterations d step) * step"
proof (cases "0 < d")
  case False
  then show ?thesis using assms by (simp add: iterations_0)
next
  case True
  have e: "step * ((- d) div step) + (- d) mod step = - d" by simp
  have "0 \<le> (- d) mod step" using assms by simp
  with e have "d \<le> - (step * ((- d) div step))" by linarith
  then have "d \<le> (- ((- d) div step)) * step" by (simp add: mult.commute)
  moreover have "0 \<le> - ((- d) div step)"
    using assms True by (simp add: div_neg_pos_less0 less_imp_le)
  ultimately show ?thesis by (simp add: iterations_def)
qed

lemma rejoin_windows:
  assumes "0 \<le> overlap" "overlap < chunkSize"
  shows "rejoin overlap (map (\<lambda>k. js_slice text (int k * (chunkSize - overlap))
                         (int k * (chunkSize - overlap) + chunkSize)) [0..<n]) =
         (if n = 0 then [] else take (n * nat (chunkSize - overlap) + nat overlap) text)"
proof (cases n)
  case 0
  then show ?thesis by simp
next
  case (Suc m)
  let ?s = "nat (chunkSize - overlap)" and ?o = "nat overlap"
  have w: "js_slice text (int k * (chunkSize - overlap)) (int k * (chunkSize - overlap) + chunkSize)
           = take (?s + ?o) (drop (k * ?s) text)" for k
  proof -
    have "0 \<le> int k * (chunkSize - overlap)" using assms by simp
    moreover have "0 \<le> int k * (chunkSize - overlap) + chunkSize" using assms calculation by linarith
    moreover have "nat (int k * (chunkSize - overlap)) = k * ?s"
      using assms by (simp add: nat_mult_distrib)
    moreover have "nat chunkSize = ?s + ?o" using assms by simp
    ultimately show ?thesis by (simp add: js_slice_window)
  qed
  have d: "drop ?o (take (?s + ?o) (drop (?s + k * ?s) text)) = take ?s (drop (?s + ?o + k * ?s) text)" for k
    by (simp add: drop_take add.commute add.left_commute)
  have "rejoin overlap (map (\<lambda>k. js_slice text (int k * (chunkSize - overlap))
                         (int k * (chunkSize - overlap) + chunkSize)) [0..<Suc m]) =
        take (?s + ?o) text @ concat (map (\<lambda>k. take ?s (drop ((?s + ?o) + k * ?s) text)) [0..<m])"
    unfolding w
    by (simp add: upt_conv_Cons map_Suc_upt [symmetric] d comp_def del: upt_Suc)
  also have "\<dots> = take (?s + ?o) text @ take (m * ?s) (drop (?s + ?o) text)"
    by (simp only: concat_windows)
  also have "\<dots> = take ((?s + ?o) + m * ?s) text"
    by (simp only: take_add)
  finally show ?thesis using Suc by (simp add: add.commute add.left_commute)
qed

subsection \<open>The claims about the chunker\<close>

text \<open>
  Claim C1. For every text and every configuration with \<open>0 \<le> overlap < chunkSize\<close>,
  \<open>chunkText\<close> returns a chunk sequence, and the first chunk followed by every later
  chunk without its first \<open>overlap\<close> characters is the text again.
\<close>

theorem chunkText_rejoin:
  assumes "0 \<le> overlap" "overlap < chunkSize"
  shows "\<exists>chunks. chunkText text chunkSize overlap = Some chunks \<and> rejoin overlap chunks = text"
proof -
  let ?n = "iterations (int (length text)) (chunkSize - overlap)"
  have "int (length text) \<le> int ?n * (chunkSize - overlap)"
    using assms by (intro iterations_cover) simp
  then have "length text \<le> ?n * nat (chunkSize - overlap)"
    using assms by (metis nat_int nat_mono nat_mult_distrib of_nat_0_le_iff)
  then have "(if ?n = 0 then [] else take (?n * nat (chunkSize - overlap) + nat overlap) text) = text"
    by auto
  with rejoin_windows [OF assms, of "text" ?n] chunkText_closed [OF assms(2), of "text"]
  show ?thesis by simp
qed

theorem chunkText_rejoin_witness:
  "(0::int) \<le> 1 \<and> (1::int) < 4 \<and>
   (\<exists>chunks. chunkText ''ABCDEFGHIJ'' 4 1 = Some chunks \<and> rejoin 1 chunks = ''ABCDEFGHIJ'')"
  using chunkText_rejoin [of 1 4 "''ABCDEFGHIJ''"] by simp

text \<open>
  Claim C2, as stated: the number of chunks is the ceiling of
  \<open>(length text - overlap) / (chunkSize - overlap)\<close>, and \<open>ABCDEFGHIJ\<close> with size 4 and
  overlap 1 gives the three chunks \<open>ABCD\<close>, \<open>DEFG\<close>, \<open>GHIJ\<close>. The loop runs while
  \<open>i < text.length\<close>, so it also emits the chunk that starts at index 9: there are four
  chunks, and the ceiling of \<open>(10 - 1) / (4 - 1)\<close> is 3.
\<close>

theorem chunkText_example_counterexample:
  "chunkText ''ABCDEFGHIJ'' 4 1 = Some [''ABCD'', ''DEFG'', ''GHIJ'', ''J''] \<and>
   chunkText ''ABCDEFGHIJ'' 4 1 \<noteq> Some [''ABCD'', ''DEFG'', ''GHIJ''] \<and>
   map_option length (chunkText ''ABCDEFGHIJ'' 4 1) = Some 4 \<and>
   \<lceil>(10 - 1) / (4 - 1 :: real)\<rceil> = 3"
proof -
  have c: "chunkText ''ABCDEFGHIJ'' 4 1 = Some [''ABCD'', ''DEFG'', ''GHIJ'', ''J'']"
    by code_simp
  have "\<lceil>(10 - 1) / (4 - 1 :: real)\<rceil> = 3" by simp
  with c show ?thesis by simp
qed

text \<open>
  Claim C2, amended: for every text and every configuration with \<open>overlap < chunkSize\<close>,
  \<open>chunkText\<close> returns, and the number of chunks is the ceiling of
  \<open>length text / (chunkSize - overlap)\<close>.
\<close>

theorem chunkText_count:
  assumes "overlap < chunkSize"
  shows "\<exists>chunks. chunkText text chunkSize overlap = Some chunks \<and>
           int (length chunks) = \<lceil>real (length text) / real_of_int (chunkSize - overlap)\<rceil>"
proof -
  have "(- int (length text)) div (chunkSize - overlap) \<le> 0"
    using assms by (intro div_nonpos_pos_le0) simp_all
  then have "int (iterations (int (length text)) (chunkSize - overlap)) =
             - ((- int (length text)) div (chunkSize - overlap))"
    by (simp add: iterations_def)
  also have "\<dots> = \<lceil>real_of_int (int (length text)) / real_of_int (chunkSize - overlap)\<rceil>"
    by (simp only: ceiling_divide_eq_div)
  finally show ?thesis
    by (simp add: chunkText_closed [OF assms])
qed

theorem chunkText_count_witness:
  "(1::int) < 4 \<and>
   (\<exists>chunks. chunkText ''ABCDEFGHIJ'' 4 1 = Some chunks \<and>
      int (length chunks) = \<lceil>real (length ''ABCDEFGHIJ'') / real_of_int (4 - 1)\<rceil>)"
  using chunkText_count [of 1 4 "''ABCDEFGHIJ''"] by simp

text \<open>
  Claim C3, as stated: with \<open>overlap \<ge> chunkSize\<close> the chunker fails with a
  configuration error. \<open>chunkText\<close> has no check of its arguments and no \<^verbatim>\<open>throw\<close>:
  on the empty text it returns the empty chunk sequence.
\<close>

theorem chunkText_no_error_counterexample:
  "chunkText ('''' :: string) 4 4 = Some []"
  by code_simp

text \<open>
  Claim C3, amended: with \<open>overlap \<ge> chunkSize\<close>, \<open>chunkText\<close> returns the empty
  chunk sequence on the empty text, and on every other text its loop never exits (the
  index does not advance past the text's length), so it returns nothing.
\<close>

theorem chunkText_no_advance:
  assumes "chunkSize \<le> overlap"
  shows "chunkText text chunkSize overlap = (if text = [] then Some [] else None)"
proof (cases "text = []")
  case True
  then show ?thesis
    unfolding chunkText_def by (subst chunkText_loop.simps) simp
next
  case False
  have "chunkText_loop text chunkSize overlap 0 [] = None"
  proof (cases "chunkText_loop text chunkSize overlap 0 []")
    case None
    then show ?thesis .
  next
    case (Some r)
    from chunkText_loop_diverges [OF this] assms False show ?thesis by simp
  qed
  with False show ?thesis by (simp add: chunkText_def)
qed

theorem chunkText_no_advance_witness:
  "(4::int) \<le> 4 \<and> chunkText ''A'' 4 4 = None \<and> chunkText ''ABC'' 4 7 = None"
  using chunkText_no_advance [of 4 4 "''A''"] chunkText_no_advance [of 4 7 "''ABC''"] by simp

text \<open>
  Claim C10. Whenever \<open>chunkSize > overlap \<ge> 0\<close> the loop of \<open>chunkText\<close> exits on every
  text: each iteration advances the index by \<open>chunkSize - overlap > 0\<close>, the loop runs
  \<open>iterations (length text) (chunkSize - overlap)\<close> times and returns a list. The default
  arguments 500 and 50 are such a configuration.
\<close>

theorem chunkText_terminates:
  assumes "0 \<le> overlap" "overlap < chunkSize"
  shows "0 < chunkSize - overlap \<and>
         (\<exists>chunks. chunkText text chunkSize overlap = Some chunks \<and>
            length chunks = iterations (int (length text)) (chunkSize - overlap)) \<and>
         (\<exists>chunks. chunkText_default text = Some chunks)"
proof -
  have "(50::int) < 500" by simp
  from chunkText_closed [OF this, of "text"] chunkText_closed [OF assms(2), of "text"] assms
  show ?thesis by (simp add: chunkText_default_def)
qed

theorem chunkText_terminates_witness:
  "(0::int) \<le> 1 \<and> (1::int) < 4 \<and> (0::int) < 4 - 1 \<and>
   (\<exists>chunks. chunkText ''ABCDEFGHIJ'' 4 1 = Some chunks \<and>
      length chunks = iterations (int (length ''ABCDEFGHIJ'')) (4 - 1)) \<and>
   (\<exists>chunks. chunkText_default ''ABCDEFGHIJ'' = Some chunks)"
  using chunkText_terminates [of 1 4 "''ABCDEFGHIJ''"] by simp

section \<open>Properties of the embedding client\<close>

text \<open>
  Claim C8, as stated: when the payload of the remote call has no vector field, or an
  empty one, \<open>getEmbedding\<close> fails with an upstream error. It returns \<^verbatim>\<open>undefined\<close> for a
  payload \<^verbatim>\<open>{}\<close> and the empty array for \<^verbatim>\<open>{ embedding: [] }\<close>.
\<close>

theorem getEmbedding_malformed_counterexample:
  "getEmbedding (answers (JObj [])) ''hello'' = Inr JUndefined \<and>
   getEmbedding (answers (JObj [(''embedding'', JArr [])])) ''hello'' = Inr (JArr [])"
  by (simp add: getEmbedding_def answers_def)

text \<open>
  Claim C8, amended: for every input text, \<open>getEmbedding\<close> fails only when the remote call
  rejects (with that rejection) or when the payload is \<^verbatim>\<open>undefined\<close> or \<^verbatim>\<open>null\<close> (with a
  \<^verbatim>\<open>TypeError\<close>). A payload without a vector field is not checked: the result is the
  payload's element 0, which is \<^verbatim>\<open>undefined\<close> when there is none, and an empty vector
  field is returned as it is.
\<close>

theorem getEmbedding_unchecked:
  assumes "post text = Inr data" "\<not> nullish data"
  shows "(\<exists>v. getEmbedding post text = Inr v) \<and>
         (js_member data ''embedding'' = JUndefined \<longrightarrow>
            getEmbedding post text = Inr (js_first data)) \<and>
         (js_member data ''embedding'' = JArr [] \<longrightarrow>
            getEmbedding post text = Inr (JArr []))"
  using assms by (simp add: getEmbedding_def)

theorem getEmbedding_unchecked_witness:
  "\<not> nullish (JObj []) \<and> js_member (JObj []) ''embedding'' = JUndefined \<and>
   getEmbedding (answers (JObj [])) ''hello'' = Inr (js_first (JObj [])) \<and>
   js_first (JObj []) = JUndefined \<and>
   \<not> nullish (JObj [(''embedding'', JArr [])]) \<and>
   js_member (JObj [(''embedding'', JArr [])]) ''embedding'' = JArr [] \<and>
   getEmbedding (answers (JObj [(''embedding'', JArr [])])) ''hello'' = Inr (JArr [])"
  using getEmbedding_unchecked [of "answers (JObj [])" "''hello''" "JObj []"]
    getEmbedding_unchecked [of "answers (JObj [(''embedding'', JArr [])])" "''hello''"
      "JObj [(''embedding'', JArr [])]"]
  by (simp add: answers_def)

section \<open>Properties of the handlers\<close>

subsection \<open>What the steps leave unchanged\<close>

lemma add_batches_frame:
  "add_batches w ns docs i s = (r, s') \<Longrightarrow>
     files s' = files s \<and> session_namespace s' = session_namespace s \<and>
     uuid_draws s' = uuid_draws s \<and>
     (\<exists>evs. trace s' = trace s @ evs \<and> set (concat (map event_namespace evs)) \<subseteq> {ns})"
proof (induction w ns docs i s arbitrary: r s' rule: add_batches.induct)
  case (1 w ns docs i s)
  show ?case
  proof (cases "i < length docs")
    case False
    with "1.prems" show ?thesis by (simp add: add_batches.simps [of w ns docs i s])
  next
    case True
    let ?batch = "js_slice docs (int i) (int i + 100)"
    let ?s1 = "emit (AddDocuments ns ?batch) s"
    show ?thesis
    proof (cases "addDocuments w ns ?batch")
      case (Some e)
      with True "1.prems" have "s' = ?s1"
        by (simp add: add_batches.simps [of w ns docs i s] Let_def)
      then show ?thesis by (simp add: emit_def)
    next
      case None
      with True "1.prems" have "add_batches w ns docs (i + 100) ?s1 = (r, s')"
        by (simp add: add_batches.simps [of w ns docs i s] Let_def)
      from "1.IH" [OF True refl refl None this]
      obtain evs where "files s' = files ?s1" "session_namespace s' = session_namespace ?s1"
        "uuid_draws s' = uuid_draws ?s1" "trace s' = trace ?s1 @ evs"
        "set (concat (map event_namespace evs)) \<subseteq> {ns}"
        by blast
      then show ?thesis by (auto simp: emit_def)
    qed
  qed
qed

lemma unlinkSync_frame:
  "unlinkSync w p s = (r, s') \<Longrightarrow>
     trace s' = trace s @ [Unlink p] \<and> session_namespace s' = session_namespace s \<and>
     uuid_draws s' = uuid_draws s \<and> files s' \<subseteq> files s \<and> (r = None \<longrightarrow> p \<notin> files s')"
  by (auto simp: unlinkSync_def emit_def split: option.splits)

lemma upload_try_frame:
  assumes "upload_try uuidv4 w req s = (res, s')"
  shows "\<exists>evs. trace s' = trace s @ evs \<and>
           set (concat (map event_namespace evs)) \<union> set (reported_namespace res)
             \<subseteq> {uuidv4 (uuid_draws s)} \<and>
           uuid_draws s \<le> uuid_draws s' \<and>
           (set (concat (map event_namespace evs)) \<union> set (reported_namespace res) \<noteq> {}
              \<longrightarrow> uuid_draws s < uuid_draws s')"
  using assms
  apply (simp add: upload_try_def Let_def split: option.splits sum.splits prod.splits)
       apply (auto simp: emit_def dest!: add_batches_frame unlinkSync_frame)
  done

lemma upload_catch_frame:
  assumes "upload_catch w req err s = (res, s')"
  shows "(\<exists>evs. trace s' = trace s @ evs \<and> set (concat (map event_namespace evs)) = {}) \<and>
         reported_namespace res = [] \<and> uuid_draws s' = uuid_draws s"
  using assms
  by (auto simp: upload_catch_def Let_def split: option.splits if_splits prod.splits
      dest!: unlinkSync_frame)

lemma upload_handler_frame:
  assumes "upload_handler uuidv4 w req s = (res, s')"
  shows "invocation_namespaces res s s' \<subseteq> {uuidv4 (uuid_draws s)} \<and>
         uuid_draws s \<le> uuid_draws s' \<and>
         (invocation_namespaces res s s' \<noteq> {} \<longrightarrow> uuid_draws s < uuid_draws s')"
proof (cases "upload_try uuidv4 w req s")
  case (Pair r1 s1)
  from upload_try_frame [OF Pair] obtain evs where
    t: "trace s1 = trace s @ evs" and
    n: "set (concat (map event_namespace evs)) \<union> set (reported_namespace r1)
          \<subseteq> {uuidv4 (uuid_draws s)}" and
    d: "uuid_draws s \<le> uuid_draws s1" and
    f: "set (concat (map event_namespace evs)) \<union> set (reported_namespace r1) \<noteq> {}
          \<longrightarrow> uuid_draws s < uuid_draws s1"
    by blast
  show ?thesis
  proof (cases r1)
    case (Inr r)
    with Pair assms have "res = r1" "s' = s1" by (simp_all add: upload_handler_def)
    with t n d f show ?thesis
      by (simp add: invocation_namespaces_def new_events_def)
  next
    case (Inl err)
    with Pair assms have c: "upload_catch w req err s1 = (res, s')"
      by (simp add: upload_handler_def)
    from upload_catch_frame [OF c] obtain evs' where
      t': "trace s' = trace s1 @ evs'" and n': "set (concat (map event_namespace evs')) = {}" and
      r': "reported_namespace res = []" and d': "uuid_draws s' = uuid_draws s1"
      by blast
    from Inl have "reported_namespace r1 = []" by simp
    with t t' n n' r' d d' f show ?thesis
      by (simp add: invocation_namespaces_def new_events_def)
  qed
qed

lemma query_handler_draws:
  "query_handler w req s = (res, s') \<Longrightarrow> uuid_draws s' = uuid_draws s"
  by (auto simp: query_handler_def query_try_def Let_def emit_def
      split: option.splits sum.splits prod.splits if_splits)

lemma handle_draws:
  "handle uuidv4 w r s = (res, s') \<Longrightarrow> uuid_draws s \<le> uuid_draws s'"
proof (cases r)
  case GetRoot
  then show "handle uuidv4 w r s = (res, s') \<Longrightarrow> ?thesis" by auto
next
  case (PostUploadPdf req)
  then show "handle uuidv4 w r s = (res, s') \<Longrightarrow> ?thesis"
    using upload_handler_frame [of uuidv4 w req s res s'] by simp
next
  case (PostQuery req)
  then show "handle uuidv4 w r s = (res, s') \<Longrightarrow> ?thesis"
    using query_handler_draws [of w req s res s'] by simp
qed

lemma serve_draws:
  "serve uuidv4 reqs s = (rs, s') \<Longrightarrow> uuid_draws s \<le> uuid_draws s'"
proof (induction reqs arbitrary: s rs s')
  case Nil
  then show ?case by simp
next
  case (Cons a reqs)
  obtain w r where a: "a = (w, r)" by (cases a)
  obtain res s1 where h: "handle uuidv4 w r s = (res, s1)" by (cases "handle uuidv4 w r s")
  obtain rs1 s2 where t: "serve uuidv4 reqs s1 = (rs1, s2)" by (cases "serve uuidv4 reqs s1")
  from Cons.prems a h t have "s' = s2" by simp
  with handle_draws [OF h] Cons.IH [OF t] show ?case by simp
qed

lemma upload_try_sent:
  assumes "req_file req = Some f" "upload_try uuidv4 w req s = (Inr r, s1)"
  shows "Unlink (path f) \<in> set (new_events s s1) \<and> path f \<notin> files s1"
  using assms
  apply (simp add: upload_try_def Let_def split: option.splits sum.splits prod.splits)
  apply (auto simp: emit_def new_events_def dest!: add_batches_frame unlinkSync_frame)
  done

lemma upload_try_extends:
  assumes "upload_try uuidv4 w req s = (res, s1)"
  shows "\<exists>evs. trace s1 = trace s @ evs"
  using upload_try_frame [OF assms] by blast

lemma upload_catch_deletes:
  assumes "req_file req = Some f" "path f \<noteq> []" "upload_catch w req err s1 = (res, s')"
  shows "trace s' = trace s1 @ [Unlink (path f)] \<and>
         (\<forall>r. res = Inr r \<longrightarrow> path f \<notin> files s') \<and>
         (unlinkSync_outcome w (trace s1) (path f) = None \<longrightarrow> (\<exists>r. res = Inr r))"
  using assms
  by (auto simp: upload_catch_def unlinkSync_def emit_def Let_def split: option.splits)

subsection \<open>Requests with a missing input\<close>

text \<open>
  An upload request without a file is answered 400. A query request whose body is there
  and has no truthy \<open>question\<close> is answered 400; one whose body is \<^verbatim>\<open>undefined\<close> or \<^verbatim>\<open>null\<close>
  is answered 500. In all three cases the state, and so the record of calls, is the one
  before the request.
\<close>

lemma missing_input_answers:
  "(req_file ureq = None \<longrightarrow>
      upload_handler uuidv4 w ureq s = (Inr (Response 400 (ErrorBody ''No file uploaded'')), s)) \<and>
   (\<not> nullish (body qreq) \<and> \<not> truthy (js_member (body qreq) ''question'') \<longrightarrow>
      query_handler w qreq s = (Inr (Response 400 (ErrorBody ''Question is required'')), s)) \<and>
   (nullish (body qreq) \<longrightarrow>
      query_handler w qreq s =
        (Inr (Response 500
           (QueryFailed ''Failed to process query''
              (if NODE_ENV w = Some ''development''
               then Some (err_message (nullish_TypeError w)) else None))), s))"
  by (simp add: upload_handler_def upload_try_def query_handler_def query_try_def)

subsection \<open>The namespace of a query\<close>

text \<open>
  Whatever the request, the world and the state (the namespace stored in the session
  included), every call that the query handler makes to the vector store is under the
  string constant.
\<close>

lemma query_handler_namespaces:
  "set (concat (map event_namespace (new_events s (snd (query_handler w req s)))))
     \<subseteq> {''6763088c-17a1-433d-9f7f-066974723312''}"
  by (auto simp: query_handler_def query_try_def Let_def emit_def new_events_def
      split: option.splits sum.splits prod.splits if_splits)

subsection \<open>The ingestion function of pinecone.js\<close>

text \<open>
  The function makes no call that deletes a file, and it returns on every input: with the
  default arguments the chunker always returns.
\<close>

lemma embed_loop_calls:
  "embed_loop w chunks i vectors tr = (r, tr') \<Longrightarrow>
     \<exists>evs. tr' = tr @ evs \<and> set evs \<subseteq> EmbeddingPost ` set chunks"
proof (induction w chunks i vectors tr arbitrary: r tr' rule: embed_loop.induct)
  case (1 w chunks i vectors tr)
  show ?case
  proof (cases "i < length chunks")
    case False
    with "1.prems" show ?thesis by (simp add: embed_loop.simps [of w chunks i vectors tr])
  next
    case True
    show ?thesis
    proof (cases "getEmbedding (axios_post w) (chunks ! i)")
      case (Inl e)
      with True "1.prems" have "tr' = tr @ [EmbeddingPost (chunks ! i)]"
        by (simp add: embed_loop.simps [of w chunks i vectors tr])
      with True show ?thesis by simp
    next
      case (Inr embedding)
      with True "1.prems" have
        "embed_loop w chunks (i + 1)
           (vectors @ [\<lparr>vec_id = ''chunk-'' @ show_nat (Date_now w i) @ ''-'' @ show_nat i,
                         vec_values = embedding, vec_text = chunks ! i\<rparr>])
           (tr @ [EmbeddingPost (chunks ! i)]) = (r, tr')"
        by (simp add: embed_loop.simps [of w chunks i vectors tr])
      from "1.IH" [OF True Inr this] obtain evs where
        "tr' = (tr @ [EmbeddingPost (chunks ! i)]) @ evs" "set evs \<subseteq> EmbeddingPost ` set chunks"
        by blast
      with True show ?thesis by auto
    qed
  qed
qed

lemma processPdf_keeps_file:
  assumes "processPdfAndStoreInPinecone w filePath = Some (r, tr)"
  shows "Unlink p \<notin> set tr"
  using assms
  by (auto simp: processPdfAndStoreInPinecone_def
      split: sum.splits option.splits prod.splits dest!: embed_loop_calls)

lemma processPdf_returns:
  "\<exists>r tr. processPdfAndStoreInPinecone w filePath = Some (r, tr)"
proof -
  have ne: "chunkText_default t \<noteq> None" for t :: string
    using chunkText_closed [of 50 500 t] by (simp add: chunkText_default_def)
  show ?thesis
    by (auto simp: processPdfAndStoreInPinecone_def ne
        split: sum.splits option.splits prod.splits)
qed

subsection \<open>The claims about the handlers\<close>

text \<open>
  Claim C4, on the code. The claim says that a query searches the namespace that the
  upload of the document minted. The query handler searches the namespace given by a
  string constant; the line that reads the namespace of the session is commented out.
  After an upload that minted and stored in the session the namespace \<open>ns-\<close>, a query of
  the same client makes its calls to the vector store under the constant.
\<close>

theorem query_searches_constant_namespace:
  "fst (serve counting_uuid
          [(quiet_world, PostUploadPdf a_pdf), (quiet_world, PostQuery (ask ''hi''))] start_state) =
     [Inr (Response 200 (UploadOk ''PDF processed and stored successfully'' ''ns-'' 2 2)),
      Inr (Response 200 (QueryOk (Some ''I do not know'') []))] \<and>
   session_namespace (snd (serve counting_uuid
          [(quiet_world, PostUploadPdf a_pdf), (quiet_world, PostQuery (ask ''hi''))] start_state)) =
     Some ''ns-'' \<and>
   concat (map event_namespace (trace (snd (serve counting_uuid
          [(quiet_world, PostUploadPdf a_pdf), (quiet_world, PostQuery (ask ''hi''))] start_state)))) =
     [''ns-'', ''ns-'',
      ''6763088c-17a1-433d-9f7f-066974723312'', ''6763088c-17a1-433d-9f7f-066974723312'']"
  by code_simp

text \<open>
  Claim C5. The upload handler takes its namespace from a call of \<^verbatim>\<open>uuidv4()\<close> made in
  the invocation itself: every call it makes to the vector store, and the namespace it
  reports, use the value drawn then. When \<^verbatim>\<open>uuidv4()\<close> never returns the same value twice,
  two upload invocations, whatever is served between them, have no namespace in common.
\<close>

theorem upload_namespaces_fresh:
  assumes "inj uuidv4"
    and "upload_handler uuidv4 w1 req1 s0 = (res1, s1)"
    and "serve uuidv4 between s1 = (rs, s2)"
    and "upload_handler uuidv4 w2 req2 s2 = (res2, s3)"
  shows "invocation_namespaces res1 s0 s1 \<subseteq> {uuidv4 (uuid_draws s0)} \<and>
         invocation_namespaces res2 s2 s3 \<subseteq> {uuidv4 (uuid_draws s2)} \<and>
         invocation_namespaces res1 s0 s1 \<inter> invocation_namespaces res2 s2 s3 = {}"
proof -
  have "invocation_namespaces res1 s0 s1 \<inter> invocation_namespaces res2 s2 s3 = {}"
  proof (rule ccontr)
    assume "invocation_namespaces res1 s0 s1 \<inter> invocation_namespaces res2 s2 s3 \<noteq> {}"
    then obtain ns where 1: "ns \<in> invocation_namespaces res1 s0 s1"
      and 2: "ns \<in> invocation_namespaces res2 s2 s3" by blast
    from upload_handler_frame [OF assms(2)] 1
    have a: "ns = uuidv4 (uuid_draws s0)" "uuid_draws s0 < uuid_draws s1" by auto
    from upload_handler_frame [OF assms(4)] 2
    have b: "ns = uuidv4 (uuid_draws s2)" by auto
    from serve_draws [OF assms(3)] a(2) have "uuid_draws s0 \<noteq> uuid_draws s2" by simp
    with a(1) b assms(1) show False by (simp add: inj_eq)
  qed
  with upload_handler_frame [OF assms(2)] upload_handler_frame [OF assms(4)] show ?thesis
    by simp
qed

theorem upload_namespaces_fresh_witness:
  "inj counting_uuid \<and>
   (let r1 = upload_handler counting_uuid quiet_world a_pdf start_state;
        r2 = serve counting_uuid [(quiet_world, PostQuery (ask ''hi''))] (snd r1);
        r3 = upload_handler counting_uuid quiet_world b_pdf (snd r2)
    in invocation_namespaces (fst r1) start_state (snd r1) = {''ns-''} \<and>
       invocation_namespaces (fst r3) (snd r2) (snd r3) = {''ns-x''} \<and>
       invocation_namespaces (fst r1) start_state (snd r1) \<inter>
         invocation_namespaces (fst r3) (snd r2) (snd r3) = {})"
proof -
  define r1 where "r1 = upload_handler counting_uuid quiet_world a_pdf start_state"
  define r2 where "r2 = serve counting_uuid [(quiet_world, PostQuery (ask ''hi''))] (snd r1)"
  define r3 where "r3 = upload_handler counting_uuid quiet_world b_pdf (snd r2)"
  have i: "inj counting_uuid"
    by (simp add: inj_def counting_uuid_def)
  have a: "invocation_namespaces
             (fst (upload_handler counting_uuid quiet_world a_pdf start_state)) start_state
             (snd (upload_handler counting_uuid quiet_world a_pdf start_state)) = {''ns-''}"
    by code_simp
  have b: "invocation_namespaces
             (fst (upload_handler counting_uuid quiet_world b_pdf
                (snd (serve counting_uuid [(quiet_world, PostQuery (ask ''hi''))]
                   (snd (upload_handler counting_uuid quiet_world a_pdf start_state))))))
             (snd (serve counting_uuid [(quiet_world, PostQuery (ask ''hi''))]
                   (snd (upload_handler counting_uuid quiet_world a_pdf start_state))))
             (snd (upload_handler counting_uuid quiet_world b_pdf
                (snd (serve counting_uuid [(quiet_world, PostQuery (ask ''hi''))]
                   (snd (upload_handler counting_uuid quiet_world a_pdf start_state)))))) = {''ns-x''}"
    by code_simp
  have h1: "upload_handler counting_uuid quiet_world a_pdf start_state = (fst r1, snd r1)"
    by (simp add: r1_def)
  have h2: "serve counting_uuid [(quiet_world, PostQuery (ask ''hi''))] (snd r1) = (fst r2, snd r2)"
    by (simp add: r2_def)
  have h3: "upload_handler counting_uuid quiet_world b_pdf (snd r2) = (fst r3, snd r3)"
    by (simp add: r3_def)
  from upload_namespaces_fresh [OF i h1 h2 h3]
  have c: "invocation_namespaces (fst r1) start_state (snd r1) \<inter>
           invocation_namespaces (fst r3) (snd r2) (snd r3) = {}"
    by (rule conjunct2 [OF conjunct2])
  show ?thesis
    unfolding Let_def
    by (intro conjI) (rule i a b c [unfolded r1_def r2_def r3_def])+
qed

text \<open>
  Claim C6, on the code. The claim says that an upload request without a file and a query
  request without a \<open>question\<close> are answered with status 400 before any call is made. That
  holds for the upload, and for a query whose body is there (lemma
  \<open>missing_input_answers\<close>). A query request whose body is \<^verbatim>\<open>undefined\<close> never reaches the
  check of \<open>question\<close>: the destructuring before it throws, and the \<^verbatim>\<open>catch\<close> block answers
  500. No call is made in that case either.
\<close>

theorem query_without_body_answers_500:
  "query_handler quiet_world \<lparr>body = JUndefined\<rparr> start_state =
     (Inr (Response 500 (QueryFailed ''Failed to process query'' None)), start_state) \<and>
   query_handler quiet_world \<lparr>body = JObj []\<rparr> start_state =
     (Inr (Response 400 (ErrorBody ''Question is required'')), start_state) \<and>
   upload_handler counting_uuid quiet_world \<lparr>req_file = None\<rparr> start_state =
     (Inr (Response 400 (ErrorBody ''No file uploaded'')), start_state)"
  by (simp add: query_handler_def query_try_def upload_handler_def upload_try_def quiet_world_def)

text \<open>
  Claim C7, as stated: the file is deleted on every exit path, and a failure of the
  deletion is neither surfaced to the caller nor masks the original error. The calls of
  \<^verbatim>\<open>fs.unlinkSync\<close> are not guarded. When the PDF cannot be parsed and the deletion in the
  \<^verbatim>\<open>catch\<close> block fails, the deletion's error leaves the handler, no response reports the
  parse error, and the file stays. When the deletion after a successful store fails once,
  the caller gets status 500 with the deletion's message.
\<close>

theorem upload_cleanup_failure_counterexample:
  "upload_handler counting_uuid locked_world a_pdf start_state =
     (Inl (JsError ''EPERM'' None),
      start_state\<lparr>trace := [PdfLoad ''upload/1-a.pdf'', Unlink ''upload/1-a.pdf'']\<rparr>) \<and>
   ''upload/1-a.pdf'' \<in> files (snd (upload_handler counting_uuid locked_world a_pdf start_state)) \<and>
   fst (upload_handler counting_uuid busy_world a_pdf start_state) =
     Inr (Response 500 (UploadFailed ''Failed to process PDF'' ''EBUSY'' None))"
  by code_simp

text \<open>
  Claim C7, amended: for every upload invocation that received a file, the deletion of
  the file is attempted on every exit path, and whenever the handler sends a response the
  file is gone; when no deletion fails, the handler does send a response.
\<close>

theorem upload_deletes_file:
  assumes "req_file req = Some f" "path f \<noteq> []"
    and "upload_handler uuidv4 w req s = (res, s')"
  shows "Unlink (path f) \<in> set (new_events s s') \<and>
         (\<forall>r. res = Inr r \<longrightarrow> path f \<notin> files s') \<and>
         ((\<forall>tr. unlinkSync_outcome w tr (path f) = None) \<longrightarrow> (\<exists>r. res = Inr r))"
proof (cases "upload_try uuidv4 w req s")
  case (Pair r1 s1)
  show ?thesis
  proof (cases r1)
    case (Inr r)
    with Pair assms(3) have "res = Inr r" "s' = s1" by (simp_all add: upload_handler_def)
    with upload_try_sent [OF assms(1), of uuidv4 w s r s1] Pair Inr show ?thesis by simp
  next
    case (Inl err)
    with Pair assms(3) have c: "upload_catch w req err s1 = (res, s')"
      by (simp add: upload_handler_def)
    from upload_try_extends [OF Pair] obtain evs where "trace s1 = trace s @ evs" ..
    with upload_catch_deletes [OF assms(1,2) c] show ?thesis
      by (simp add: new_events_def)
  qed
qed

theorem upload_deletes_file_witness:
  "req_file a_pdf = Some \<lparr>path = ''upload/1-a.pdf'', originalname = ''a.pdf''\<rparr> \<and>
   path \<lparr>path = ''upload/1-a.pdf'', originalname = ''a.pdf''\<rparr> \<noteq> [] \<and>
   (\<forall>tr. unlinkSync_outcome quiet_world tr ''upload/1-a.pdf'' = None) \<and>
   ''upload/1-a.pdf'' \<in> files start_state \<and>
   Unlink ''upload/1-a.pdf'' \<in>
     set (new_events start_state (snd (upload_handler counting_uuid quiet_world a_pdf start_state))) \<and>
   ''upload/1-a.pdf'' \<notin> files (snd (upload_handler counting_uuid quiet_world a_pdf start_state)) \<and>
   (\<exists>r. fst (upload_handler counting_uuid quiet_world a_pdf start_state) = Inr r)"
proof -
  have 1: "req_file a_pdf = Some \<lparr>path = ''upload/1-a.pdf'', originalname = ''a.pdf''\<rparr>"
    by (simp add: a_pdf_def)
  have 2: "path \<lparr>path = ''upload/1-a.pdf'', originalname = ''a.pdf''\<rparr> \<noteq> []" by simp
  have 3: "\<forall>tr. unlinkSync_outcome quiet_world tr ''upload/1-a.pdf'' = None"
    by (simp add: quiet_world_def)
  have 4: "''upload/1-a.pdf'' \<in> files start_state" by (simp add: start_state_def)
  from upload_deletes_file [of a_pdf _ counting_uuid quiet_world start_state,
      OF 1 2 prod.collapse [symmetric]] 1 2 3 4
  show ?thesis by auto
qed

text \<open>
  Claim C9. When the similarity search returns no result, the context is the empty string,
  the system prompt is the text of the template with \<^verbatim>\<open>""\<close> (the JSON of the empty
  string) after \<^verbatim>\<open>Context:\<close>, the completion service is still called, with that prompt
  and the question, and the answer it gives is returned with status 200 and an empty
  list of sources.
\<close>

theorem query_zero_results:
  assumes "js_member (body req) ''question'' = q" "truthy q"
    and "fromExistingIndex w (index_name w) ''6763088c-17a1-433d-9f7f-066974723312'' = None"
    and "similaritySearch w ''6763088c-17a1-433d-9f7f-066974723312'' q 5 = Inr []"
  shows
    "let prompt =
       ''\<newline>    You are an AI assistant that answers questions based on the provided context from PDF documents.'' @
       ''\<newline>    - Always stay truthful to the context'' @
       ''\<newline>    - If you don't know, say you don't know'' @
       ''\<newline>    - Keep answers concise and accurate'' @
       ''\<newline>    - give all the details (can give in paragraph) '' @
       ''\<newline>    '' @
       ''\<newline>    Context:'' @
       ''\<newline>     '' @ [CHR 0x22, CHR 0x22] @
       ''\<newline>    ''
     in build_context [] = [] \<and>
        SYSTEM_PROMPT (build_context []) = prompt \<and>
        new_events s (snd (query_handler w req s)) =
          [FromExistingIndex (index_name w) ''6763088c-17a1-433d-9f7f-066974723312'',
           SimilaritySearch ''6763088c-17a1-433d-9f7f-066974723312'' q 5,
           ChatCompletion prompt q] \<and>
        (\<forall>c. completions_create w prompt q = Inr c \<longrightarrow>
           fst (query_handler w req s) = Inr (Response 200 (QueryOk (first_content c) [])))"
proof -
  have b: "build_context [] = []" by (simp add: build_context_def enumerate_eq_zip)
  have n: "\<not> nullish (body req)"
    using assms(1,2) by (cases "body req") auto
  have p: "SYSTEM_PROMPT [] =
       ''\<newline>    You are an AI assistant that answers questions based on the provided context from PDF documents.'' @
       ''\<newline>    - Always stay truthful to the context'' @
       ''\<newline>    - If you don't know, say you don't know'' @
       ''\<newline>    - Keep answers concise and accurate'' @
       ''\<newline>    - give all the details (can give in paragraph) '' @
       ''\<newline>    '' @
       ''\<newline>    Context:'' @
       ''\<newline>     '' @ [CHR 0x22, CHR 0x22] @
       ''\<newline>    ''"
    by (simp add: SYSTEM_PROMPT_def JSON_stringify_def)
  have t: "new_events s (snd (query_handler w req s)) =
          [FromExistingIndex (index_name w) ''6763088c-17a1-433d-9f7f-066974723312'',
           SimilaritySearch ''6763088c-17a1-433d-9f7f-066974723312'' q 5,
           ChatCompletion (SYSTEM_PROMPT []) q]"
    using assms n b
    by (cases "completions_create w (SYSTEM_PROMPT []) q")
       (simp_all add: query_handler_def query_try_def Let_def emit_def new_events_def)
  have r: "fst (query_handler w req s) = Inr (Response 200 (QueryOk (first_content c) []))"
    if "completions_create w (SYSTEM_PROMPT []) q = Inr c" for c
    using assms n b that
    by (simp add: query_handler_def query_try_def Let_def)
  from b t r show ?thesis
    unfolding Let_def p [symmetric] by simp
qed

theorem query_zero_results_witness:
  "js_member (body (ask ''hi'')) ''question'' = JStr ''hi'' \<and> truthy (JStr ''hi'') \<and>
   fromExistingIndex quiet_world (index_name quiet_world)
     ''6763088c-17a1-433d-9f7f-066974723312'' = None \<and>
   similaritySearch quiet_world ''6763088c-17a1-433d-9f7f-066974723312'' (JStr ''hi'') 5 = Inr [] \<and>
   new_events start_state (snd (query_handler quiet_world (ask ''hi'') start_state)) =
     [FromExistingIndex ''pdf-chat'' ''6763088c-17a1-433d-9f7f-066974723312'',
      SimilaritySearch ''6763088c-17a1-433d-9f7f-066974723312'' (JStr ''hi'') 5,
      ChatCompletion
        (''\<newline>    You are an AI assistant that answers questions based on the provided context from PDF documents.'' @
         ''\<newline>    - Always stay truthful to the context'' @
         ''\<newline>    - If you don't know, say you don't know'' @
         ''\<newline>    - Keep answers concise and accurate'' @
         ''\<newline>    - give all the details (can give in paragraph) '' @
         ''\<newline>    '' @
         ''\<newline>    Context:'' @
         ''\<newline>     '' @ [CHR 0x22, CHR 0x22] @
         ''\<newline>    '')
        (JStr ''hi'')] \<and>
   fst (query_handler quiet_world (ask ''hi'') start_state) =
     Inr (Response 200 (QueryOk (Some ''I do not know'') []))"
proof -
  have 1: "js_member (body (ask ''hi'')) ''question'' = JStr ''hi''"
    by (simp add: ask_def)
  have 2: "truthy (JStr ''hi'')" by simp
  have 3: "fromExistingIndex quiet_world (index_name quiet_world)
     ''6763088c-17a1-433d-9f7f-066974723312'' = None"
    by (simp add: quiet_world_def)
  have 4: "similaritySearch quiet_world ''6763088c-17a1-433d-9f7f-066974723312'' (JStr ''hi'') 5
     = Inr []"
    by (simp add: quiet_world_def)
  have 5: "index_name quiet_world = ''pdf-chat''"
    by (simp add: index_name_def quiet_world_def)
  have 6: "completions_create quiet_world p (JStr ''hi'') =
     Inr (ChatCompletionObject [Choice (Some (ChatMessage (Some ''I do not know'')))])" for p
    by (simp add: quiet_world_def)
  from query_zero_results [OF 1 2 3 4, of start_state] 1 2 3 4 5 6 show ?thesis
    by (simp add: first_content_def Let_def)
qed

end
